theory Spec2Isabelle
  imports Main
begin

section \<open>Arrays and row slicing\<close>

text \<open>
  The generator keeps two numpy arrays and only ever moves their entries around, so the
  element types stay parameters. An array is one-dimensional or two-dimensional; a
  two-dimensional array is the list of its rows.
\<close>

datatype 'a ndarray = Vec "'a list" | Mat "'a list list"

datatype py_error = IndexError

text \<open>
  A slice bound is normalised against the length \<open>n\<close> of the axis as Python does it: a
  negative bound counts from the end, and every bound is clamped into \<open>0..n\<close>.
\<close>

definition slice_bound :: "int \<Rightarrow> int \<Rightarrow> int" where
  "slice_bound n i = (if i < 0 then max 0 (i + n) else min i n)"

definition py_slice :: "int \<Rightarrow> int \<Rightarrow> 'a list \<Rightarrow> 'a list" where
  "py_slice start stop xs =
     (let n = int (length xs);
          lo = slice_bound n start;
          hi = slice_bound n stop
      in take (nat (hi - lo)) (drop (nat lo) xs))"

text \<open>
  \<^verbatim>\<open>a[start:stop, :]\<close>: two indices on a one-dimensional array raise IndexError
  (too many indices); on a two-dimensional array the rows are sliced and every column kept.
\<close>

fun getitem_rows :: "'a ndarray \<Rightarrow> int \<Rightarrow> int \<Rightarrow> py_error + 'a ndarray" where
  "getitem_rows (Vec xs) start stop = Inl IndexError"
| "getitem_rows (Mat rows) start stop = Inr (Mat (py_slice start stop rows))"

fun flatten :: "'a ndarray \<Rightarrow> 'a ndarray" where
  "flatten (Vec xs) = Vec xs"
| "flatten (Mat rows) = Vec (concat rows)"

fun nrows :: "'a ndarray \<Rightarrow> nat" where
  "nrows (Vec xs) = length xs"
| "nrows (Mat rows) = length rows"

fun has_shape :: "int \<Rightarrow> int \<Rightarrow> 'a ndarray \<Rightarrow> bool" where
  "has_shape r c (Vec xs) = False"
| "has_shape r c (Mat rows) =
     (int (length rows) = r \<and> list_all (\<lambda>row. int (length row) = c) rows)"

section \<open>MultilabelGenerator\<close>

record ('x, 'y) multilabel_generator =
  X_mat :: "'x ndarray"
  y_mat :: "'y ndarray"
  num_samples :: int
  num_features :: int
  num_target_tasks :: int
  num_labels :: int
  instance_index :: int
  current_instance_y :: "'y ndarray option"
  current_instance_x :: "'x ndarray option"

type_synonym ('x, 'y) batch = "'x ndarray option \<times> 'y ndarray option"

text \<open>
  The constructor stores what \<^verbatim>\<open>make_multilabel_classification\<close> of scikit-learn
  returns. That function is outside the repository, so its result \<open>(gX, gy)\<close> is a
  parameter; \<open>generated\<close> is the shape it documents for a successful call:
  \<open>n_samples\<close> rows of \<open>n_features\<close> features and of \<open>n_classes\<close> indicators.
  \<^verbatim>\<open>__init__\<close> sets both array fields to \<^verbatim>\<open>None\<close> and \<^verbatim>\<open>__configure\<close> overwrites
  them before the constructor returns; no method reads them in between, so the record
  holds the arrays themselves.
\<close>

definition generated :: "int \<Rightarrow> int \<Rightarrow> int \<Rightarrow> 'x ndarray \<Rightarrow> 'y ndarray \<Rightarrow> bool" where
  "generated n_samples n_features n_targets gX gy =
     (has_shape n_samples n_features gX \<and> has_shape n_samples n_targets gy)"

definition configure ::
  "int \<Rightarrow> int \<Rightarrow> int \<Rightarrow> int \<Rightarrow> 'x ndarray \<Rightarrow> 'y ndarray \<Rightarrow>
   ('x, 'y) multilabel_generator \<Rightarrow> ('x, 'y) multilabel_generator" where
  "configure n_samples n_features n_targets n_labels gX gy s =
     s\<lparr>X_mat := gX, y_mat := gy, num_samples := n_samples, num_features := n_features,
       num_target_tasks := n_targets, num_labels := n_labels\<rparr>"

definition MultilabelGenerator ::
  "int \<Rightarrow> int \<Rightarrow> int \<Rightarrow> int \<Rightarrow> 'x ndarray \<Rightarrow> 'y ndarray \<Rightarrow> ('x, 'y) multilabel_generator" where
  "MultilabelGenerator n_samples n_features n_targets n_labels gX gy =
     configure n_samples n_features n_targets n_labels gX gy
       \<lparr>X_mat = gX, y_mat = gy, num_samples = 0, num_features = 0, num_target_tasks = 0,
        num_labels = 0, instance_index = 0, current_instance_y = None,
        current_instance_x = None\<rparr>"

definition estimated_remaining_instances :: "('x, 'y) multilabel_generator \<Rightarrow> int" where
  "estimated_remaining_instances s = num_samples s - instance_index s"

definition has_more_instances :: "('x, 'y) multilabel_generator \<Rightarrow> bool" where
  "has_more_instances s = (num_samples s - instance_index s > 0)"

text \<open>
  \<open>next_instance\<close> advances the index first, then slices both arrays. The body of the
  \<^verbatim>\<open>try\<close> stops at the first IndexError; the handler clears both cached fields. The
  result is the pair of cached fields, returned together with the new state.
\<close>

definition next_instance ::
  "int \<Rightarrow> ('x, 'y) multilabel_generator \<Rightarrow> ('x, 'y) batch \<times> ('x, 'y) multilabel_generator" where
  "next_instance batch_size s =
     (let s1 = s\<lparr>instance_index := instance_index s + batch_size\<rparr>;
          s2 =
            (case getitem_rows (X_mat s1) (instance_index s1 - batch_size) (instance_index s1) of
               Inl IndexError \<Rightarrow> s1\<lparr>current_instance_x := None, current_instance_y := None\<rparr>
             | Inr cx \<Rightarrow>
                 (case getitem_rows (y_mat s1) (instance_index s1 - batch_size) (instance_index s1) of
                    Inl IndexError \<Rightarrow> s1\<lparr>current_instance_x := None, current_instance_y := None\<rparr>
                  | Inr cy \<Rightarrow>
                      s1\<lparr>current_instance_x := Some cx,
                         current_instance_y :=
                           Some (if num_target_tasks s1 < 2 then flatten cy else cy)\<rparr>))
      in ((current_instance_x s2, current_instance_y s2), s2))"

definition is_restartable :: "('x, 'y) multilabel_generator \<Rightarrow> bool" where
  "is_restartable s = True"

definition restart :: "('x, 'y) multilabel_generator \<Rightarrow> ('x, 'y) multilabel_generator" where
  "restart s = s"

definition get_last_instance ::
  "('x, 'y) multilabel_generator \<Rightarrow> ('x, 'y) batch \<times> ('x, 'y) multilabel_generator" where
  "get_last_instance s = ((current_instance_x s, current_instance_y s), s)"

definition get_num_attributes :: "('x, 'y) multilabel_generator \<Rightarrow> int" where
  "get_num_attributes s = num_features s"

definition get_num_targets :: "('x, 'y) multilabel_generator \<Rightarrow> int" where
  "get_num_targets s = num_target_tasks s"

text \<open>
  A successfully constructed generator holds arrays of the shapes recorded in its fields.
\<close>

definition well_formed :: "('x, 'y) multilabel_generator \<Rightarrow> bool" where
  "well_formed s =
     (has_shape (num_samples s) (num_features s) (X_mat s) \<and>
      has_shape (num_samples s) (num_target_tasks s) (y_mat s))"

subsection \<open>Sequences of calls\<close>

datatype stream_op =
    NextInstance int
  | Restart
  | GetLastInstance
  | HasMoreInstances
  | EstimatedRemainingInstances

fun apply_op :: "stream_op \<Rightarrow> ('x, 'y) multilabel_generator \<Rightarrow> ('x, 'y) multilabel_generator" where
  "apply_op (NextInstance batch_size) s = snd (next_instance batch_size s)"
| "apply_op Restart s = restart s"
| "apply_op GetLastInstance s = snd (get_last_instance s)"
| "apply_op HasMoreInstances s = s"
| "apply_op EstimatedRemainingInstances s = s"

fun valid_op :: "stream_op \<Rightarrow> bool" where
  "valid_op (NextInstance batch_size) = (0 \<le> batch_size)"
| "valid_op _ = True"

text \<open>
  The states a caller can reach: construction from a generated dataset, then any calls,
  batch sizes being non-negative.
\<close>

inductive reachable :: "('x, 'y) multilabel_generator \<Rightarrow> bool" where
  constructed:
    "generated n_samples n_features n_targets gX gy \<Longrightarrow>
     reachable (MultilabelGenerator n_samples n_features n_targets n_labels gX gy)"
| called:
    "reachable s \<Longrightarrow> valid_op c \<Longrightarrow> reachable (apply_op c s)"

text \<open>\<open>k\<close> successive calls \<open>next_instance(batch_size)\<close>, collecting what each returns.\<close>

fun repeat_next_instance ::
  "nat \<Rightarrow> int \<Rightarrow> ('x, 'y) multilabel_generator \<Rightarrow>
   ('x, 'y) batch list \<times> ('x, 'y) multilabel_generator" where
  "repeat_next_instance 0 batch_size s = ([], s)"
| "repeat_next_instance (Suc k) batch_size s =
     (let (r, s') = next_instance batch_size s;
          (rs, s'') = repeat_next_instance k batch_size s'
      in (r # rs, s''))"

subsection \<open>Reading a returned batch\<close>

text \<open>The number of samples in a batch is the number of rows of its feature array.\<close>

fun batch_rows :: "('x, 'y) batch \<Rightarrow> nat" where
  "batch_rows (None, cy) = 0"
| "batch_rows (Some cx, cy) = nrows cx"

text \<open>
  The exhaustion signal of the specification is an empty or absent batch: both parts
  absent, or both parts present without any row.
\<close>

fun exhaustion_signal :: "('x, 'y) batch \<Rightarrow> bool" where
  "exhaustion_signal (None, None) = True"
| "exhaustion_signal (Some cx, Some cy) = (nrows cx = 0 \<and> nrows cy = 0)"
| "exhaustion_signal _ = False"

fun arrays_returned :: "('x, 'y) batch \<Rightarrow> bool" where
  "arrays_returned (Some cx, Some cy) = True"
| "arrays_returned _ = False"

fun flat_of_length :: "int \<Rightarrow> 'a ndarray option \<Rightarrow> bool" where
  "flat_of_length n (Some (Vec xs)) = (int (length xs) = n)"
| "flat_of_length n _ = False"

fun matrix_of_shape :: "int \<Rightarrow> int \<Rightarrow> 'a ndarray option \<Rightarrow> bool" where
  "matrix_of_shape r c (Some a) = has_shape r c a"
| "matrix_of_shape r c None = False"

section \<open>BaseClassifier\<close>

text \<open>
  \<^verbatim>\<open>self.fit\<close> is dispatched on the object, so the \<open>fit\<close> of the concrete classifier is
  a parameter: it either raises or returns a value together with the updated object.
  \<open>first_fit\<close> calls it and drops the value it returns.
\<close>

type_synonym ('a, 'b, 'c, 'm, 'r, 'e) fit_method =
  "'a \<Rightarrow> 'b \<Rightarrow> 'c option \<Rightarrow> 'm \<Rightarrow> 'e + ('r \<times> 'm)"

definition first_fit ::
  "('a, 'b, 'c, 'm, 'r, 'e) fit_method \<Rightarrow> 'a \<Rightarrow> 'b \<Rightarrow> 'c option \<Rightarrow> 'm \<Rightarrow> 'e + (unit \<times> 'm)" where
  "first_fit fit X y classes self =
     (case fit X y classes self of
        Inl e \<Rightarrow> Inl e
      | Inr (r, self') \<Rightarrow> Inr ((), self'))"

definition fit :: "'a \<Rightarrow> 'b \<Rightarrow> 'c option \<Rightarrow> 'm \<Rightarrow> 'e + (unit \<times> 'm)" where
  "fit X y classes self = Inr ((), self)"

text \<open>What a call does to the caller: the exception it raises, or the object it leaves.\<close>

definition effect :: "'e + ('r \<times> 'm) \<Rightarrow> 'e + 'm" where
  "effect outcome = map_sum id snd outcome"

section \<open>Slicing lemmas\<close>

lemma py_slice_forward:
  assumes "0 \<le> c" "0 \<le> b"
  shows "py_slice c (c + b) xs = take (nat b) (drop (nat c) xs)"
proof (cases "c \<le> int (length xs)")
  case True
  with assms show ?thesis
    by (auto simp: py_slice_def slice_bound_def Let_def min_def intro!: take_all)
next
  case False
  with assms show ?thesis
    by (simp add: py_slice_def slice_bound_def Let_def)
qed

lemma py_slice_past_end:
  assumes "int (length xs) \<le> c"
  shows "py_slice c d xs = []"
proof -
  have "slice_bound (int (length xs)) c = int (length xs)"
    using assms by (simp add: slice_bound_def)
  then show ?thesis by (simp add: py_slice_def Let_def)
qed

section \<open>One call of next_instance\<close>

lemma next_instance_Mat:
  assumes "X_mat s = Mat xs" "y_mat s = Mat ys"
  shows "next_instance b s =
    (let c = instance_index s;
         cx = Mat (py_slice c (c + b) xs);
         cy = (if num_target_tasks s < 2 then Vec (concat (py_slice c (c + b) ys))
               else Mat (py_slice c (c + b) ys))
     in ((Some cx, Some cy),
         s\<lparr>instance_index := c + b, current_instance_x := Some cx,
           current_instance_y := Some cy\<rparr>))"
  using assms by (simp add: next_instance_def Let_def)

lemma has_shape_Mat:
  assumes "has_shape r c a"
  obtains rows where "a = Mat rows" "int (length rows) = r"
    "list_all (\<lambda>row. int (length row) = c) rows"
  using assms by (cases a) auto

lemma well_formed_next_instance:
  assumes "well_formed s"
  shows "well_formed (snd (next_instance b s))"
proof -
  from assms obtain xs where xs: "X_mat s = Mat xs"
    unfolding well_formed_def by (auto elim: has_shape_Mat)
  from assms obtain ys where ys: "y_mat s = Mat ys"
    unfolding well_formed_def by (auto elim: has_shape_Mat)
  show ?thesis
    using assms by (simp add: next_instance_Mat [OF xs ys] Let_def well_formed_def)
qed

lemma instance_index_next_instance:
  "instance_index (snd (next_instance b s)) = instance_index s + b"
  by (simp add: next_instance_def Let_def split: sum.split py_error.split)

lemma num_samples_next_instance:
  "num_samples (snd (next_instance b s)) = num_samples s"
  by (simp add: next_instance_def Let_def split: sum.split py_error.split)

lemma well_formed_constructed:
  "generated N F T gX gy \<Longrightarrow> well_formed (MultilabelGenerator N F T L gX gy)"
  by (simp add: generated_def well_formed_def MultilabelGenerator_def configure_def)

lemma instance_index_constructed:
  "instance_index (MultilabelGenerator N F T L gX gy) = 0"
  by (simp add: MultilabelGenerator_def configure_def)

lemma well_formed_apply_op: "well_formed s \<Longrightarrow> well_formed (apply_op c s)"
  by (cases c) (simp_all add: well_formed_next_instance restart_def get_last_instance_def)

lemma instance_index_apply_op:
  "valid_op c \<Longrightarrow> instance_index s \<le> instance_index (apply_op c s)"
  by (cases c) (simp_all add: instance_index_next_instance restart_def get_last_instance_def)

lemma reachable_well_formed: "reachable s \<Longrightarrow> well_formed s"
  by (induction rule: reachable.induct)
     (simp_all add: well_formed_constructed well_formed_apply_op)

lemma reachable_index_nonneg: "reachable s \<Longrightarrow> 0 \<le> instance_index s"
proof (induction rule: reachable.induct)
  case (constructed n_samples n_features n_targets gX gy n_labels)
  show ?case by (simp add: instance_index_constructed)
next
  case (called s c)
  with instance_index_apply_op [of c s] show ?case by linarith
qed

lemma next_instance_past_end:
  assumes "well_formed s" "num_samples s \<le> instance_index s"
  shows "fst (next_instance b s) =
    (Some (Mat []), Some (if num_target_tasks s < 2 then Vec [] else Mat []))"
proof -
  from assms(1) obtain xs where xs: "X_mat s = Mat xs" "int (length xs) = num_samples s"
    unfolding well_formed_def by (auto elim: has_shape_Mat)
  from assms(1) obtain ys where ys: "y_mat s = Mat ys" "int (length ys) = num_samples s"
    unfolding well_formed_def by (auto elim: has_shape_Mat)
  have "py_slice (instance_index s) (instance_index s + b) xs = []"
    using xs(2) assms(2) by (simp add: py_slice_past_end)
  moreover have "py_slice (instance_index s) (instance_index s + b) ys = []"
    using ys(2) assms(2) by (simp add: py_slice_past_end)
  ultimately show ?thesis
    by (simp add: next_instance_Mat [OF xs(1) ys(1)] Let_def)
qed

lemma next_instance_in_bounds:
  assumes "well_formed s" "0 \<le> instance_index s" "0 \<le> b"
    "instance_index s + b \<le> num_samples s"
  obtains xs ys where
    "fst (next_instance b s) =
       (Some (Mat xs), Some (if num_target_tasks s < 2 then Vec (concat ys) else Mat ys))"
    "int (length xs) = b" "int (length ys) = b"
    "list_all (\<lambda>row. int (length row) = num_features s) xs"
    "list_all (\<lambda>row. int (length row) = num_target_tasks s) ys"
proof -
  let ?c = "instance_index s"
  from assms(1) obtain xs where xs: "X_mat s = Mat xs" "int (length xs) = num_samples s"
    "list_all (\<lambda>row. int (length row) = num_features s) xs"
    unfolding well_formed_def by (auto elim: has_shape_Mat)
  from assms(1) obtain ys where ys: "y_mat s = Mat ys" "int (length ys) = num_samples s"
    "list_all (\<lambda>row. int (length row) = num_target_tasks s) ys"
    unfolding well_formed_def by (auto elim: has_shape_Mat)
  let ?xs = "take (nat b) (drop (nat ?c) xs)"
  let ?ys = "take (nat b) (drop (nat ?c) ys)"
  have sx: "py_slice ?c (?c + b) xs = ?xs" and sy: "py_slice ?c (?c + b) ys = ?ys"
    using assms(2,3) by (simp_all add: py_slice_forward)
  have 1: "fst (next_instance b s) =
       (Some (Mat ?xs), Some (if num_target_tasks s < 2 then Vec (concat ?ys) else Mat ?ys))"
    by (simp add: next_instance_Mat [OF xs(1) ys(1)] Let_def sx sy)
  have 2: "int (length ?xs) = b" "int (length ?ys) = b"
    using assms(2,3,4) xs(2) ys(2) by auto
  have 3: "list_all (\<lambda>row. int (length row) = num_features s) ?xs"
    using xs(3) by (auto simp: list_all_iff dest: in_set_takeD in_set_dropD)
  have 4: "list_all (\<lambda>row. int (length row) = num_target_tasks s) ?ys"
    using ys(3) by (auto simp: list_all_iff dest: in_set_takeD in_set_dropD)
  from 1 2 3 4 show thesis by (rule that)
qed

lemma batch_rows_in_bounds:
  assumes "well_formed s" "0 \<le> instance_index s" "0 \<le> b"
    "instance_index s + b \<le> num_samples s"
  shows "batch_rows (fst (next_instance b s)) = nat b"
  using assms by (rule next_instance_in_bounds) auto

lemma repeat_next_instance_Suc:
  "repeat_next_instance (Suc k) b s =
     (fst (next_instance b s) # fst (repeat_next_instance k b (snd (next_instance b s))),
      snd (repeat_next_instance k b (snd (next_instance b s))))"
  by (simp add: split_beta Let_def)

lemma instance_index_repeat:
  "instance_index (snd (repeat_next_instance k b s)) = instance_index s + int k * b"
  by (induction k arbitrary: s)
     (simp_all add: repeat_next_instance_Suc instance_index_next_instance algebra_simps
               del: repeat_next_instance.simps(2))

lemma num_samples_repeat:
  "num_samples (snd (repeat_next_instance k b s)) = num_samples s"
  by (induction k arbitrary: s)
     (simp_all add: repeat_next_instance_Suc num_samples_next_instance
               del: repeat_next_instance.simps(2))

lemma well_formed_repeat:
  "well_formed s \<Longrightarrow> well_formed (snd (repeat_next_instance k b s))"
  by (induction k arbitrary: s)
     (simp_all add: repeat_next_instance_Suc well_formed_next_instance
               del: repeat_next_instance.simps(2))

lemma length_repeat: "length (fst (repeat_next_instance k b s)) = k"
  by (induction k arbitrary: s)
     (simp_all add: repeat_next_instance_Suc del: repeat_next_instance.simps(2))

lemma repeat_full_batches:
  assumes "well_formed s" "0 \<le> instance_index s" "0 \<le> b"
    "instance_index s + int k * b \<le> num_samples s"
  shows "list_all (\<lambda>r. batch_rows r = nat b) (fst (repeat_next_instance k b s))"
  using assms
proof (induction k arbitrary: s)
  case 0
  show ?case by simp
next
  case (Suc k)
  let ?s = "snd (next_instance b s)"
  have le: "int k * b \<ge> 0" using Suc.prems(3) by simp
  have step: "instance_index s + b \<le> num_samples s"
    using Suc.prems(4) le by (simp add: algebra_simps)
  have hd: "batch_rows (fst (next_instance b s)) = nat b"
    using Suc.prems(1,2,3) step by (rule batch_rows_in_bounds)
  have "list_all (\<lambda>r. batch_rows r = nat b) (fst (repeat_next_instance k b ?s))"
  proof (rule Suc.IH)
    show "well_formed ?s" using Suc.prems(1) by (rule well_formed_next_instance)
    show "0 \<le> instance_index ?s"
      using Suc.prems(2,3) by (simp add: instance_index_next_instance)
    show "0 \<le> b" by fact
    show "instance_index ?s + int k * b \<le> num_samples ?s"
      using Suc.prems(4)
      by (simp add: instance_index_next_instance num_samples_next_instance algebra_simps)
  qed
  with hd show ?case
    by (simp add: repeat_next_instance_Suc del: repeat_next_instance.simps(2))
qed

lemma sum_list_constant:
  "list_all (\<lambda>r. f r = (c::nat)) rs \<Longrightarrow> sum_list (map f rs) = length rs * c"
  by (induction rs) simp_all

section \<open>Claims about the stream\<close>

text \<open>
  C1. In every reachable state whose index has reached or passed \<open>num_samples\<close>,
  \<open>next_instance\<close> with any batch size returns a batch without rows (the exhaustion
  signal): a feature array of no rows and a label array of no entries. It takes no
  exception branch.
\<close>

theorem next_instance_exhausted:
  assumes "reachable s" "num_samples s \<le> instance_index s"
  shows "fst (next_instance batch_size s) =
           (Some (Mat []), Some (if num_target_tasks s < 2 then Vec [] else Mat []))
         \<and> exhaustion_signal (fst (next_instance batch_size s))"
proof -
  have "well_formed s" using assms(1) by (rule reachable_well_formed)
  then have "fst (next_instance batch_size s) =
      (Some (Mat []), Some (if num_target_tasks s < 2 then Vec [] else Mat []))"
    using assms(2) by (rule next_instance_past_end)
  then show ?thesis by simp
qed

theorem next_instance_exhausted_witness:
  "reachable (snd (next_instance 1 (MultilabelGenerator 1 1 1 1 (Mat [[7::int]]) (Mat [[1::int]]))))
   \<and> num_samples (snd (next_instance 1 (MultilabelGenerator 1 1 1 1 (Mat [[7::int]]) (Mat [[1::int]]))))
      \<le> instance_index (snd (next_instance 1 (MultilabelGenerator 1 1 1 1 (Mat [[7::int]]) (Mat [[1::int]]))))
   \<and> fst (next_instance 1 (snd (next_instance 1 (MultilabelGenerator 1 1 1 1 (Mat [[7::int]]) (Mat [[1::int]])))))
      = (Some (Mat []), Some (Vec []))"
proof -
  let ?s0 = "MultilabelGenerator 1 1 1 1 (Mat [[7::int]]) (Mat [[1::int]])"
  let ?s1 = "snd (next_instance 1 ?s0)"
  have "reachable ?s0"
    by (rule reachable.constructed) (simp add: generated_def)
  then have "reachable (apply_op (NextInstance 1) ?s0)"
    by (rule reachable.called) simp
  then have r: "reachable ?s1" by simp
  have i: "num_samples ?s1 \<le> instance_index ?s1"
    by (simp add: instance_index_next_instance num_samples_next_instance
        MultilabelGenerator_def configure_def)
  have t: "num_target_tasks ?s1 < 2"
    by (simp add: next_instance_def MultilabelGenerator_def configure_def Let_def)
  from next_instance_exhausted [OF r i, of 1] t r i show ?thesis by simp
qed

text \<open>
  C2. A stream of \<open>N\<close> samples read from the start in batches of \<open>b \<ge> 1\<close>, where \<open>b\<close>
  divides \<open>N\<close>: the first \<open>N div b\<close> calls each return a non-empty batch of \<open>b\<close> rows,
  the row counts add up to \<open>N\<close>, \<open>has_more_instances\<close> is false afterwards, and the
  following call returns the exhaustion signal.
\<close>

theorem even_batches_cover_stream:
  assumes "generated N F T gX gy" "1 \<le> b" "b dvd N"
  shows "case repeat_next_instance (nat (N div b)) b (MultilabelGenerator N F T L gX gy) of
           (batches, s') \<Rightarrow>
             length batches = nat (N div b) \<and>
             list_all (\<lambda>r. batch_rows r = nat b \<and> 0 < batch_rows r) batches \<and>
             int (sum_list (map batch_rows batches)) = N \<and>
             \<not> has_more_instances s' \<and>
             exhaustion_signal (fst (next_instance b s'))"
proof -
  let ?s0 = "MultilabelGenerator N F T L gX gy"
  define k where "k = nat (N div b)"
  let ?run = "repeat_next_instance k b ?s0"
  have wf: "well_formed ?s0" using assms(1) by (rule well_formed_constructed)
  have i0: "instance_index ?s0 = 0" by (rule instance_index_constructed)
  have n0: "num_samples ?s0 = N" by (simp add: MultilabelGenerator_def configure_def)
  have N: "0 \<le> N"
    using assms(1) by (auto simp: generated_def elim: has_shape_Mat)
  have q: "0 \<le> N div b"
    using assms(2) N by (simp add: pos_imp_zdiv_nonneg_iff)
  have kq: "int k = N div b" using q by (simp add: k_def)
  have kb: "int k * b = N"
    unfolding kq using assms(3) by (rule dvd_div_mult_self)
  have full: "list_all (\<lambda>r. batch_rows r = nat b) (fst ?run)"
    by (rule repeat_full_batches) (use wf i0 n0 kb assms(2) in simp_all)
  have len: "length (fst ?run) = k" by (rule length_repeat)
  have "sum_list (map batch_rows (fst ?run)) = length (fst ?run) * nat b"
    using full by (rule sum_list_constant)
  then have "int (sum_list (map batch_rows (fst ?run))) = int k * int (nat b)"
    by (simp add: len)
  then have total: "int (sum_list (map batch_rows (fst ?run))) = N"
    using kb assms(2) by simp
  have idx: "instance_index (snd ?run) = N"
    by (simp add: instance_index_repeat i0 kb)
  have ns: "num_samples (snd ?run) = N"
    by (simp add: num_samples_repeat n0)
  have no_more: "\<not> has_more_instances (snd ?run)"
    by (simp add: has_more_instances_def idx ns)
  have "well_formed (snd ?run)" using wf by (rule well_formed_repeat)
  then have "fst (next_instance b (snd ?run)) =
      (Some (Mat []), Some (if num_target_tasks (snd ?run) < 2 then Vec [] else Mat []))"
    by (rule next_instance_past_end) (simp add: idx ns)
  then have ex: "exhaustion_signal (fst (next_instance b (snd ?run)))" by simp
  have pos: "list_all (\<lambda>r. batch_rows r = nat b \<and> 0 < batch_rows r) (fst ?run)"
    using full assms(2) by (simp add: list_all_iff)
  from len pos total no_more ex have
    "case ?run of
       (batches, s') \<Rightarrow>
         length batches = k \<and>
         list_all (\<lambda>r. batch_rows r = nat b \<and> 0 < batch_rows r) batches \<and>
         int (sum_list (map batch_rows batches)) = N \<and>
         \<not> has_more_instances s' \<and>
         exhaustion_signal (fst (next_instance b s'))"
    by (simp add: split_beta)
  then show ?thesis unfolding k_def .
qed

theorem even_batches_cover_stream_witness:
  "case repeat_next_instance 2 2
          (MultilabelGenerator 4 1 1 1 (Mat [[1], [2], [3], [4::int]]) (Mat [[0], [1], [1], [0::int]])) of
     (batches, s') \<Rightarrow>
       length batches = 2 \<and>
       list_all (\<lambda>r. batch_rows r = 2 \<and> 0 < batch_rows r) batches \<and>
       int (sum_list (map batch_rows batches)) = 4 \<and>
       \<not> has_more_instances s' \<and>
       exhaustion_signal (fst (next_instance 2 s'))"
proof -
  have g: "generated 4 1 1 (Mat [[1], [2], [3], [4::int]]) (Mat [[0], [1], [1], [0::int]])"
    by (simp add: generated_def)
  have b: "(1::int) \<le> 2" by simp
  have d: "(2::int) dvd 4" by simp
  have n: "nat (4 div 2) = 2" by simp
  from even_batches_cover_stream [OF g b d, of 1] show ?thesis
    unfolding n by simp
qed

text \<open>
  C3. \<open>restart\<close> on a restartable stream should put the index back to 0, so that the
  next batch is the first batch again. The stream reports itself restartable, but
  \<open>restart\<close> has an empty body: on a stream of two samples, after one call of
  \<open>next_instance(1)\<close> and a restart, the index is still 1 and the next batch is the
  second sample, not the first. (The arrays are indeed never regenerated.)
\<close>

theorem restart_keeps_index:
  "is_restartable (MultilabelGenerator 2 1 1 1 (Mat [[10], [20::int]]) (Mat [[0], [1::int]]))
   \<and> fst (next_instance 1 (MultilabelGenerator 2 1 1 1 (Mat [[10], [20::int]]) (Mat [[0], [1::int]])))
       = (Some (Mat [[10]]), Some (Vec [0]))
   \<and> instance_index
        (restart (snd (next_instance 1
           (MultilabelGenerator 2 1 1 1 (Mat [[10], [20::int]]) (Mat [[0], [1::int]]))))) = 1
   \<and> fst (next_instance 1
        (restart (snd (next_instance 1
           (MultilabelGenerator 2 1 1 1 (Mat [[10], [20::int]]) (Mat [[0], [1::int]]))))))
       = (Some (Mat [[20]]), Some (Vec [1]))"
  by (simp add: is_restartable_def restart_def next_instance_def MultilabelGenerator_def
      configure_def py_slice_def slice_bound_def Let_def)

text \<open>
  C4. A call that straddles the end of the data should not return a short batch. On a
  stream of three samples with the index at 2, \<open>next_instance(2)\<close> returns the one
  remaining sample as a batch of one row: the slice is clamped, nothing is raised, and
  the handler that would return an absent batch does not run.
\<close>

theorem straddling_call_returns_short_batch:
  "instance_index (snd (next_instance 2
       (MultilabelGenerator 3 1 1 1 (Mat [[10], [20], [30::int]]) (Mat [[0], [1], [1::int]])))) = 2
   \<and> estimated_remaining_instances (snd (next_instance 2
       (MultilabelGenerator 3 1 1 1 (Mat [[10], [20], [30::int]]) (Mat [[0], [1], [1::int]])))) = 1
   \<and> fst (next_instance 2 (snd (next_instance 2
       (MultilabelGenerator 3 1 1 1 (Mat [[10], [20], [30::int]]) (Mat [[0], [1], [1::int]])))))
       = (Some (Mat [[30]]), Some (Vec [1]))
   \<and> \<not> exhaustion_signal (fst (next_instance 2 (snd (next_instance 2
       (MultilabelGenerator 3 1 1 1 (Mat [[10], [20], [30::int]]) (Mat [[0], [1], [1::int]]))))))"
  by (simp add: estimated_remaining_instances_def next_instance_def MultilabelGenerator_def
      configure_def py_slice_def slice_bound_def Let_def)

text \<open>
  C5. What holds of the index: in every reachable state the index is at least 0; a call of
  \<open>next_instance\<close> with a batch size of at least 1 adds exactly the batch size to it, so
  the index strictly grows, and \<open>get_last_instance\<close> leaves it alone. The index is not
  bounded by \<open>num_samples\<close>.
\<close>

theorem index_nonneg_and_advances:
  assumes "reachable s" "1 \<le> batch_size"
  shows "0 \<le> instance_index s
         \<and> instance_index (snd (next_instance batch_size s)) = instance_index s + batch_size
         \<and> instance_index s < instance_index (snd (next_instance batch_size s))
         \<and> instance_index (snd (get_last_instance s)) = instance_index s"
  using reachable_index_nonneg [OF assms(1)] assms(2)
  by (simp add: instance_index_next_instance get_last_instance_def)

theorem index_nonneg_and_advances_witness:
  "0 \<le> instance_index (snd (next_instance 1
        (MultilabelGenerator 1 1 1 1 (Mat [[7::int]]) (Mat [[1::int]]))))
   \<and> instance_index (snd (next_instance 1 (snd (next_instance 1
        (MultilabelGenerator 1 1 1 1 (Mat [[7::int]]) (Mat [[1::int]])))))) = 2"
proof -
  let ?s0 = "MultilabelGenerator 1 1 1 1 (Mat [[7::int]]) (Mat [[1::int]])"
  have "reachable ?s0"
    by (rule reachable.constructed) (simp add: generated_def)
  then have "reachable (apply_op (NextInstance 1) ?s0)"
    by (rule reachable.called) simp
  then have r: "reachable (snd (next_instance 1 ?s0))" by simp
  have b: "(1::int) \<le> 1" by simp
  have "instance_index (snd (next_instance 1 ?s0)) = 1"
    by (simp add: instance_index_next_instance MultilabelGenerator_def configure_def)
  with index_nonneg_and_advances [OF r b] show ?thesis by simp
qed

text \<open>
  The upper bound of the specification fails: two calls of \<open>next_instance(1)\<close> on a
  stream of one sample leave the index at 2.
\<close>

theorem index_bounded_counterexample:
  "reachable (snd (next_instance 1 (snd (next_instance 1
      (MultilabelGenerator 1 1 1 1 (Mat [[7::int]]) (Mat [[1::int]]))))))
   \<and> num_samples (snd (next_instance 1 (snd (next_instance 1
      (MultilabelGenerator 1 1 1 1 (Mat [[7::int]]) (Mat [[1::int]])))))) = 1
   \<and> instance_index (snd (next_instance 1 (snd (next_instance 1
      (MultilabelGenerator 1 1 1 1 (Mat [[7::int]]) (Mat [[1::int]])))))) = 2"
proof -
  let ?s0 = "MultilabelGenerator 1 1 1 1 (Mat [[7::int]]) (Mat [[1::int]])"
  have "reachable ?s0"
    by (rule reachable.constructed) (simp add: generated_def)
  then have "reachable (apply_op (NextInstance 1) ?s0)"
    by (rule reachable.called) simp
  then have "reachable (apply_op (NextInstance 1) (apply_op (NextInstance 1) ?s0))"
    by (rule reachable.called) simp
  then have r: "reachable (snd (next_instance 1 (snd (next_instance 1 ?s0))))" by simp
  have "instance_index ?s0 = 0 \<and> num_samples ?s0 = 1"
    by (simp add: MultilabelGenerator_def configure_def)
  with r show ?thesis
    by (simp add: instance_index_next_instance num_samples_next_instance)
qed

text \<open>
  C6. What the caller gets: in every reachable state \<open>estimated_remaining_instances\<close> returns
  \<open>num_samples\<close> minus the index, unclamped: it is at most \<open>num_samples\<close>, it is
  negative exactly when the index has passed \<open>num_samples\<close>, and \<open>k\<close> further calls of
  \<open>next_instance(batch_size)\<close> lower it by \<open>k * batch_size\<close>.
\<close>

theorem estimated_remaining_is_difference:
  assumes "reachable s"
  shows "estimated_remaining_instances s = num_samples s - instance_index s
         \<and> estimated_remaining_instances s \<le> num_samples s
         \<and> (estimated_remaining_instances s < 0) = (num_samples s < instance_index s)
         \<and> estimated_remaining_instances (snd (repeat_next_instance k batch_size s))
             = estimated_remaining_instances s - int k * batch_size"
  using reachable_index_nonneg [OF assms]
  by (auto simp add: estimated_remaining_instances_def instance_index_repeat num_samples_repeat)

theorem estimated_remaining_is_difference_witness:
  "estimated_remaining_instances (MultilabelGenerator 1 1 1 1 (Mat [[7::int]]) (Mat [[1::int]])) = 1
   \<and> estimated_remaining_instances (snd (repeat_next_instance 2 1
        (MultilabelGenerator 1 1 1 1 (Mat [[7::int]]) (Mat [[1::int]])))) = - 1"
proof -
  let ?s0 = "MultilabelGenerator 1 1 1 1 (Mat [[7::int]]) (Mat [[1::int]])"
  have r: "reachable ?s0"
    by (rule reachable.constructed) (simp add: generated_def)
  have "num_samples ?s0 = 1 \<and> instance_index ?s0 = 0"
    by (simp add: MultilabelGenerator_def configure_def)
  with estimated_remaining_is_difference [OF r, of 2 1] show ?thesis by simp
qed

text \<open>
  The value handed to the caller can be negative: after two calls of
  \<open>next_instance(1)\<close> on a stream of one sample it is \<open>-1\<close>.
\<close>

theorem estimated_remaining_counterexample:
  "reachable (snd (next_instance 1 (snd (next_instance 1
      (MultilabelGenerator 1 1 1 1 (Mat [[7::int]]) (Mat [[1::int]]))))))
   \<and> estimated_remaining_instances (snd (next_instance 1 (snd (next_instance 1
      (MultilabelGenerator 1 1 1 1 (Mat [[7::int]]) (Mat [[1::int]])))))) = - 1"
proof -
  let ?s0 = "MultilabelGenerator 1 1 1 1 (Mat [[7::int]]) (Mat [[1::int]])"
  have "reachable ?s0"
    by (rule reachable.constructed) (simp add: generated_def)
  then have "reachable (apply_op (NextInstance 1) ?s0)"
    by (rule reachable.called) simp
  then have "reachable (apply_op (NextInstance 1) (apply_op (NextInstance 1) ?s0))"
    by (rule reachable.called) simp
  then have r: "reachable (snd (next_instance 1 (snd (next_instance 1 ?s0))))" by simp
  have "instance_index ?s0 = 0 \<and> num_samples ?s0 = 1"
    by (simp add: MultilabelGenerator_def configure_def)
  with r show ?thesis
    by (simp add: estimated_remaining_instances_def instance_index_next_instance
        num_samples_next_instance)
qed

text \<open>
  C7. The shapes returned: for an in-bounds call \<open>next_instance(batch_size)\<close> in a reachable
  state, the features are a matrix of \<open>batch_size\<close> rows and \<open>num_features\<close> columns.
  With exactly one target the labels are flat, of length \<open>batch_size\<close>. With fewer
  than two targets in general they are flat, of length \<open>batch_size * num_target_tasks\<close>.
  With two or more targets they are a matrix of \<open>batch_size\<close> rows and
  \<open>num_target_tasks\<close> columns.
\<close>

theorem label_shape:
  assumes "reachable s" "0 \<le> batch_size" "instance_index s + batch_size \<le> num_samples s"
  shows "matrix_of_shape batch_size (num_features s) (fst (fst (next_instance batch_size s)))
         \<and> (num_target_tasks s = 1 \<longrightarrow>
              flat_of_length batch_size (snd (fst (next_instance batch_size s))))
         \<and> (num_target_tasks s < 2 \<longrightarrow>
              flat_of_length (batch_size * num_target_tasks s)
                (snd (fst (next_instance batch_size s))))
         \<and> (2 \<le> num_target_tasks s \<longrightarrow>
              matrix_of_shape batch_size (num_target_tasks s)
                (snd (fst (next_instance batch_size s))))"
proof -
  have wf: "well_formed s" using assms(1) by (rule reachable_well_formed)
  have i: "0 \<le> instance_index s" using assms(1) by (rule reachable_index_nonneg)
  from wf i assms(2,3) obtain xs ys where r:
    "fst (next_instance batch_size s) =
       (Some (Mat xs), Some (if num_target_tasks s < 2 then Vec (concat ys) else Mat ys))"
    "int (length xs) = batch_size" "int (length ys) = batch_size"
    "list_all (\<lambda>row. int (length row) = num_features s) xs"
    "list_all (\<lambda>row. int (length row) = num_target_tasks s) ys"
    by (rule next_instance_in_bounds)
  have "int (length (concat ys)) = int (length ys) * num_target_tasks s"
    using r(5) by (induction ys) (simp_all add: algebra_simps)
  then have c: "int (length (concat ys)) = batch_size * num_target_tasks s"
    by (simp add: r(3))
  show ?thesis using r(2-5) c by (simp add: r(1))
qed

theorem label_shape_witness:
  "flat_of_length 2
     (snd (fst (next_instance 2
        (MultilabelGenerator 3 1 1 1 (Mat [[10], [20], [30::int]]) (Mat [[0], [1], [1::int]])))))
   \<and> matrix_of_shape 2 2
     (snd (fst (next_instance 2
        (MultilabelGenerator 3 1 2 1 (Mat [[10], [20], [30::int]]) (Mat [[0, 1], [1, 0], [1, 1::int]])))))"
proof -
  let ?a = "MultilabelGenerator 3 1 1 1 (Mat [[10], [20], [30::int]]) (Mat [[0], [1], [1::int]])"
  let ?b = "MultilabelGenerator 3 1 2 1 (Mat [[10], [20], [30::int]]) (Mat [[0, 1], [1, 0], [1, 1::int]])"
  have ra: "reachable ?a"
    by (rule reachable.constructed) (simp add: generated_def)
  have rb: "reachable ?b"
    by (rule reachable.constructed) (simp add: generated_def)
  have z: "(0::int) \<le> 2" by simp
  have fa: "instance_index ?a + 2 \<le> num_samples ?a" "num_target_tasks ?a = 1"
    by (simp_all add: MultilabelGenerator_def configure_def)
  have fb: "instance_index ?b + 2 \<le> num_samples ?b" "num_target_tasks ?b = 2"
    by (simp_all add: MultilabelGenerator_def configure_def)
  from label_shape [OF ra z fa(1)] label_shape [OF rb z fb(1)] fa(2) fb(2)
  show ?thesis by simp
qed

text \<open>
  With no target at all the flattened labels are empty, whatever the batch size: the
  length is not \<open>batch_size\<close> for every stream of fewer than two targets.
\<close>

theorem flat_labels_counterexample:
  "generated 1 1 0 (Mat [[7::int]]) (Mat [[]::int list])
   \<and> num_target_tasks (MultilabelGenerator 1 1 0 0 (Mat [[7::int]]) (Mat [[]::int list])) < 2
   \<and> instance_index (MultilabelGenerator 1 1 0 0 (Mat [[7::int]]) (Mat [[]::int list])) + 1
        \<le> num_samples (MultilabelGenerator 1 1 0 0 (Mat [[7::int]]) (Mat [[]::int list]))
   \<and> snd (fst (next_instance 1 (MultilabelGenerator 1 1 0 0 (Mat [[7::int]]) (Mat [[]::int list]))))
        = Some (Vec [])
   \<and> \<not> flat_of_length 1
        (snd (fst (next_instance 1 (MultilabelGenerator 1 1 0 0 (Mat [[7::int]]) (Mat [[]::int list])))))"
  by (simp add: generated_def next_instance_def MultilabelGenerator_def
      configure_def py_slice_def slice_bound_def Let_def)

text \<open>
  C8. \<open>get_last_instance\<close> returns the state it was given, unchanged in every field, and
  its result right after \<open>next_instance\<close> is the pair that call returned; asking twice
  gives the same batch.
\<close>

theorem get_last_instance_pure:
  "snd (get_last_instance s) = s
   \<and> fst (get_last_instance (snd (next_instance batch_size s))) = fst (next_instance batch_size s)
   \<and> fst (get_last_instance (snd (get_last_instance s))) = fst (get_last_instance s)"
  by (simp add: get_last_instance_def next_instance_def Let_def)

text \<open>
  C10. In every reachable state the two arrays are two-dimensional, so the row slice
  raises no IndexError for any bounds, and \<open>next_instance\<close> with a non-negative batch
  size returns a pair of arrays, never \<open>(None, None)\<close>, and leads to a reachable state.
\<close>

theorem index_error_unreachable:
  assumes "reachable s" "0 \<le> batch_size"
  shows "getitem_rows (X_mat s) start stop \<noteq> Inl IndexError
         \<and> getitem_rows (y_mat s) start stop \<noteq> Inl IndexError
         \<and> arrays_returned (fst (next_instance batch_size s))
         \<and> fst (next_instance batch_size s) \<noteq> (None, None)
         \<and> reachable (snd (next_instance batch_size s))"
proof -
  have wf: "well_formed s" using assms(1) by (rule reachable_well_formed)
  from wf obtain xs where xs: "X_mat s = Mat xs"
    unfolding well_formed_def by (auto elim: has_shape_Mat)
  from wf obtain ys where ys: "y_mat s = Mat ys"
    unfolding well_formed_def by (auto elim: has_shape_Mat)
  have "valid_op (NextInstance batch_size)" using assms(2) by simp
  with assms(1) have "reachable (apply_op (NextInstance batch_size) s)"
    by (rule reachable.called)
  then have r: "reachable (snd (next_instance batch_size s))" by simp
  show ?thesis
    using r by (simp add: xs ys next_instance_Mat [OF xs ys] Let_def)
qed

theorem index_error_unreachable_witness:
  "arrays_returned (fst (next_instance 5
      (MultilabelGenerator 1 1 1 1 (Mat [[7::int]]) (Mat [[1::int]]))))
   \<and> fst (next_instance 0 (snd (next_instance 5
      (MultilabelGenerator 1 1 1 1 (Mat [[7::int]]) (Mat [[1::int]])))))
       = (Some (Mat []), Some (Vec []))"
proof -
  let ?s0 = "MultilabelGenerator 1 1 1 1 (Mat [[7::int]]) (Mat [[1::int]])"
  have r: "reachable ?s0"
    by (rule reachable.constructed) (simp add: generated_def)
  have b: "(0::int) \<le> 5" by simp
  have "fst (next_instance 0 (snd (next_instance 5 ?s0))) = (Some (Mat []), Some (Vec []))"
    by (simp add: next_instance_def MultilabelGenerator_def configure_def py_slice_def
        slice_bound_def Let_def)
  with index_error_unreachable [OF r b] show ?thesis by simp
qed

section \<open>Claims about the classifier\<close>

text \<open>
  C9. For every \<open>fit\<close> a classifier supplies, \<open>first_fit\<close> has the effect of that
  \<open>fit\<close> on the same arguments: the same exception, or the same updated object; it only
  drops the returned value. With the \<open>fit\<close> of the base class the two calls coincide.
\<close>

theorem first_fit_delegates:
  "effect (first_fit f X y classes self) = effect (f X y classes self)
   \<and> first_fit f X y classes self = map_sum id (\<lambda>(r, self'). ((), self')) (f X y classes self)
   \<and> first_fit fit X y classes self = fit X y classes self"
  by (auto simp add: effect_def first_fit_def fit_def split: sum.split prod.split)

end
